theory Spec2Isabelle
  imports Main "HOL-Library.AList"
begin

section \<open>Hotel booking system: operations with undo\<close>

text \<open>
  A shallow embedding of \<^verbatim>\<open>src/exam_prac.py\<close>. The aggregate \<^verbatim>\<open>Hotel\<close> owns three
  dictionaries, two id counters and a history of operation objects. Operation objects are
  mutable: \<^verbatim>\<open>execute\<close> writes the memento (\<^verbatim>\<open>_added\<close>, \<^verbatim>\<open>guest_id\<close>,
  \<^verbatim>\<open>booking_id\<close>, \<^verbatim>\<open>_prev_status\<close>) into the instance, and the history holds
  references to the instances, not copies. So the model has an explicit object store:
  a reference is a natural number, the store maps each reference to the current field
  values of the instance it denotes, and the history is a list of references.
\<close>

subsection \<open>Dates\<close>

text \<open>
  \<^verbatim>\<open>datetime.date\<close> compares the triples (year, month, day): \<^verbatim>\<open>_cmp\<close> returns
  -1, 0 or 1, and \<^verbatim>\<open>a < b\<close> is \<^verbatim>\<open>_cmp(a, b) < 0\<close>, \<^verbatim>\<open>a >= b\<close> is
  \<^verbatim>\<open>_cmp(a, b) >= 0\<close>.
\<close>

datatype date = Date (year: nat) (month: nat) (day: nat)

definition date_cmp :: "date \<Rightarrow> date \<Rightarrow> int" where
  "date_cmp a b =
     (if year a < year b then - 1 else if year b < year a then 1
      else if month a < month b then - 1 else if month b < month a then 1
      else if day a < day b then - 1 else if day b < day a then 1
      else 0)"

definition date_lt :: "date \<Rightarrow> date \<Rightarrow> bool" where
  "date_lt a b = (date_cmp a b < 0)"

definition date_ge :: "date \<Rightarrow> date \<Rightarrow> bool" where
  "date_ge a b = (date_cmp a b \<ge> 0)"

subsection \<open>Domain records\<close>

record Room =
  number :: int
  capacity :: int
  price_per_night :: int

record Guest =
  guest_id :: int
  name :: string

record Booking =
  booking_id :: int
  booking_guest_id :: int
  room_number :: int
  check_in_date :: date
  check_out_date :: date
  status :: string

text \<open>
  A Python dictionary keeps its items in insertion order: \<^verbatim>\<open>d[k] = v\<close> replaces the
  value in place when the key is present and appends the item otherwise
  (\<^const>\<open>AList.update\<close>), \<^verbatim>\<open>del d[k]\<close> removes the item (\<^const>\<open>AList.delete\<close>),
  \<^verbatim>\<open>d.get(k)\<close> is \<^const>\<open>map_of\<close>, \<^verbatim>\<open>k in d\<close> is membership in the keys and
  \<^verbatim>\<open>d.values()\<close> lists the values in order.
\<close>

type_synonym ('k, 'v) dict = "('k \<times> 'v) list"

definition dict_contains :: "'k \<Rightarrow> ('k, 'v) dict \<Rightarrow> bool" where
  "dict_contains k d = (k \<in> set (map fst d))"

definition dict_values :: "('k, 'v) dict \<Rightarrow> 'v list" where
  "dict_values d = map snd d"

subsection \<open>Operation objects and the aggregate\<close>

text \<open>
  The six operation classes with their fields; the last field of each constructor is the
  memento that \<^verbatim>\<open>execute\<close> writes (\<^verbatim>\<open>_added\<close>, \<^verbatim>\<open>guest_id\<close>, \<^verbatim>\<open>booking_id\<close>,
  \<^verbatim>\<open>_prev_status\<close>).
\<close>

datatype Operation =
    AddRoom int int int bool
  | RegisterGuest string "int option"
  | CreateBooking int int date date "int option"
  | CancelBooking int "string option"
  | CheckIn int "string option"
  | CheckOut int "string option"

text \<open>The \<^verbatim>\<open>__init__\<close> methods: the memento starts empty.\<close>

definition AddRoom_init :: "int \<Rightarrow> int \<Rightarrow> int \<Rightarrow> Operation" where
  "AddRoom_init n c p = AddRoom n c p False"

definition RegisterGuest_init :: "string \<Rightarrow> Operation" where
  "RegisterGuest_init nm = RegisterGuest nm None"

definition CreateBooking_init :: "int \<Rightarrow> int \<Rightarrow> date \<Rightarrow> date \<Rightarrow> Operation" where
  "CreateBooking_init g rn ci co = CreateBooking g rn ci co None"

definition CancelBooking_init :: "int \<Rightarrow> Operation" where
  "CancelBooking_init b = CancelBooking b None"

definition CheckIn_init :: "int \<Rightarrow> Operation" where
  "CheckIn_init b = CheckIn b None"

definition CheckOut_init :: "int \<Rightarrow> Operation" where
  "CheckOut_init b = CheckOut b None"

fun is_new :: "Operation \<Rightarrow> bool" where
  "is_new (AddRoom n c p added) = (\<not> added)"
| "is_new (RegisterGuest nm gid) = (gid = None)"
| "is_new (CreateBooking g rn ci co bid) = (bid = None)"
| "is_new (CancelBooking b prev) = (prev = None)"
| "is_new (CheckIn b prev) = (prev = None)"
| "is_new (CheckOut b prev) = (prev = None)"

type_synonym ref = nat

record Hotel =
  rooms :: "(int, Room) dict"
  guests :: "(int, Guest) dict"
  bookings :: "(int, Booking) dict"
  next_guest_id :: int
  next_booking_id :: int
  history :: "ref list"

definition Hotel_init :: Hotel where
  "Hotel_init = \<lparr>rooms = [], guests = [], bookings = [],
                 next_guest_id = 1, next_booking_id = 1, history = []\<rparr>"

text \<open>
  Every \<^verbatim>\<open>raise ValueError(...)\<close> of the source is one constructor, named after the
  condition its message reports (the messages are Russian text): line 91 is
  \<open>DuplicateRoom\<close>, 125 \<open>UnknownGuest\<close>, 127 \<open>UnknownRoom\<close>, 129
  \<open>InvalidDateRange\<close>, 131 \<open>RoomUnavailable\<close>, 172/197/220 \<open>UnknownBooking\<close>,
  174 \<open>AlreadyCheckedOut\<close>, 176 \<open>AlreadyCancelled\<close>, 199/222
  \<open>InvalidTransition\<close>, 67 \<open>EmptyHistory\<close>.
\<close>

datatype error =
    DuplicateRoom | UnknownGuest | UnknownRoom | InvalidDateRange | RoomUnavailable
  | UnknownBooking | AlreadyCheckedOut | AlreadyCancelled | InvalidTransition
  | EmptyHistory

text \<open>
  A call either returns or raises; in both cases it leaves a state behind (an exception
  does not roll anything back), so both outcomes carry the state at exit.
\<close>

datatype 'a outcome = Returned 'a | Raised error 'a

subsection \<open>The conflict check\<close>

definition dates_overlap :: "date \<Rightarrow> date \<Rightarrow> date \<Rightarrow> date \<Rightarrow> bool" where
  "dates_overlap a_start a_end b_start b_end =
     (date_lt a_start b_end \<and> date_lt b_start a_end)"

text \<open>The \<^verbatim>\<open>for\<close> loop of \<^verbatim>\<open>_room_is_available\<close> over \<^verbatim>\<open>hotel.bookings.values()\<close>.\<close>

fun room_is_available_loop :: "Booking list \<Rightarrow> int \<Rightarrow> date \<Rightarrow> date \<Rightarrow> bool" where
  "room_is_available_loop [] rn ci co = True"
| "room_is_available_loop (booking # rest) rn ci co =
     (if room_number booking \<noteq> rn then room_is_available_loop rest rn ci co
      else if status booking \<in> set [''cancelled'', ''checked_out'']
        then room_is_available_loop rest rn ci co
      else if dates_overlap ci co (check_in_date booking) (check_out_date booking)
        then False
      else room_is_available_loop rest rn ci co)"

definition room_is_available :: "int \<Rightarrow> date \<Rightarrow> date \<Rightarrow> Hotel \<Rightarrow> bool" where
  "room_is_available rn ci co hotel =
     room_is_available_loop (dict_values (bookings hotel)) rn ci co"

subsection \<open>execute and undo\<close>

text \<open>
  \<^verbatim>\<open>execute(self, hotel)\<close> takes the instance and the aggregate and leaves both behind,
  statement by statement as in the source.
\<close>

fun execute :: "Operation \<Rightarrow> Hotel \<Rightarrow> (Operation \<times> Hotel) outcome" where
  "execute (AddRoom n c p added) hotel =
     (if dict_contains n (rooms hotel) then Raised DuplicateRoom (AddRoom n c p added, hotel)
      else
        let hotel1 = hotel\<lparr>rooms := AList.update n
                        \<lparr>number = n, capacity = c, price_per_night = p\<rparr> (rooms hotel)\<rparr>
        in Returned (AddRoom n c p True, hotel1))"
| "execute (RegisterGuest nm gid) hotel =
     (let gid1 = next_guest_id hotel;
          hotel1 = hotel\<lparr>next_guest_id := next_guest_id hotel + 1\<rparr>;
          hotel2 = hotel1\<lparr>guests := AList.update gid1
                          \<lparr>guest_id = gid1, name = nm\<rparr> (guests hotel1)\<rparr>
      in Returned (RegisterGuest nm (Some gid1), hotel2))"
| "execute (CreateBooking g rn ci co bid) hotel =
     (if \<not> dict_contains g (guests hotel)
        then Raised UnknownGuest (CreateBooking g rn ci co bid, hotel)
      else if \<not> dict_contains rn (rooms hotel)
        then Raised UnknownRoom (CreateBooking g rn ci co bid, hotel)
      else if date_ge ci co
        then Raised InvalidDateRange (CreateBooking g rn ci co bid, hotel)
      else if \<not> room_is_available rn ci co hotel
        then Raised RoomUnavailable (CreateBooking g rn ci co bid, hotel)
      else
        let bid1 = next_booking_id hotel;
            hotel1 = hotel\<lparr>next_booking_id := next_booking_id hotel + 1\<rparr>;
            hotel2 = hotel1\<lparr>bookings := AList.update bid1
                        \<lparr>booking_id = bid1, booking_guest_id = g, room_number = rn,
                         check_in_date = ci, check_out_date = co, status = ''booked''\<rparr>
                        (bookings hotel1)\<rparr>
        in Returned (CreateBooking g rn ci co (Some bid1), hotel2))"
| "execute (CancelBooking b prev) hotel =
     (case map_of (bookings hotel) b of
        None \<Rightarrow> Raised UnknownBooking (CancelBooking b prev, hotel)
      | Some booking \<Rightarrow>
          if status booking = ''checked_out''
            then Raised AlreadyCheckedOut (CancelBooking b prev, hotel)
          else if status booking = ''cancelled''
            then Raised AlreadyCancelled (CancelBooking b prev, hotel)
          else
            Returned (CancelBooking b (Some (status booking)),
              hotel\<lparr>bookings := AList.update b (booking\<lparr>status := ''cancelled''\<rparr>)
                                  (bookings hotel)\<rparr>))"
| "execute (CheckIn b prev) hotel =
     (case map_of (bookings hotel) b of
        None \<Rightarrow> Raised UnknownBooking (CheckIn b prev, hotel)
      | Some booking \<Rightarrow>
          if status booking \<noteq> ''booked''
            then Raised InvalidTransition (CheckIn b prev, hotel)
          else
            Returned (CheckIn b (Some (status booking)),
              hotel\<lparr>bookings := AList.update b (booking\<lparr>status := ''checked_in''\<rparr>)
                                  (bookings hotel)\<rparr>))"
| "execute (CheckOut b prev) hotel =
     (case map_of (bookings hotel) b of
        None \<Rightarrow> Raised UnknownBooking (CheckOut b prev, hotel)
      | Some booking \<Rightarrow>
          if status booking \<noteq> ''checked_in''
            then Raised InvalidTransition (CheckOut b prev, hotel)
          else
            Returned (CheckOut b (Some (status booking)),
              hotel\<lparr>bookings := AList.update b (booking\<lparr>status := ''checked_out''\<rparr>)
                                  (bookings hotel)\<rparr>))"

text \<open>
  The three status operations share the body of \<^verbatim>\<open>undo\<close>: look the booking up, return
  when it is absent, restore the recorded status when there is one.
\<close>

definition restore_status :: "int \<Rightarrow> string option \<Rightarrow> Hotel \<Rightarrow> Hotel" where
  "restore_status b prev hotel =
     (case map_of (bookings hotel) b of
        None \<Rightarrow> hotel
      | Some booking \<Rightarrow>
          (case prev of
             None \<Rightarrow> hotel
           | Some s \<Rightarrow> hotel\<lparr>bookings := AList.update b (booking\<lparr>status := s\<rparr>)
                                          (bookings hotel)\<rparr>))"

text \<open>No \<^verbatim>\<open>undo\<close> method writes to its instance or raises, so it returns the aggregate only.\<close>

fun undo :: "Operation \<Rightarrow> Hotel \<Rightarrow> Hotel" where
  "undo (AddRoom n c p added) hotel =
     (if added \<and> dict_contains n (rooms hotel)
        then hotel\<lparr>rooms := AList.delete n (rooms hotel)\<rparr> else hotel)"
| "undo (RegisterGuest nm gid) hotel =
     (case gid of
        None \<Rightarrow> hotel
      | Some g \<Rightarrow> if dict_contains g (guests hotel)
          then hotel\<lparr>guests := AList.delete g (guests hotel)\<rparr> else hotel)"
| "undo (CreateBooking g rn ci co bid) hotel =
     (case bid of
        None \<Rightarrow> hotel
      | Some b \<Rightarrow> if dict_contains b (bookings hotel)
          then hotel\<lparr>bookings := AList.delete b (bookings hotel)\<rparr> else hotel)"
| "undo (CancelBooking b prev) hotel = restore_status b prev hotel"
| "undo (CheckIn b prev) hotel = restore_status b prev hotel"
| "undo (CheckOut b prev) hotel = restore_status b prev hotel"

subsection \<open>Hotel.apply and Hotel.undo_last\<close>

record World =
  heap :: "ref \<Rightarrow> Operation"
  hotel :: Hotel

text \<open>
  \<^verbatim>\<open>apply\<close> calls \<^verbatim>\<open>operation.execute(self)\<close>; an exception leaves the method at
  once, with whatever \<^verbatim>\<open>execute\<close> had written so far; otherwise the reference is
  appended to the history.
\<close>

definition hotel_apply :: "ref \<Rightarrow> World \<Rightarrow> World outcome" where
  "hotel_apply r w =
     (case execute (heap w r) (hotel w) of
        Raised e (op1, hotel1) \<Rightarrow> Raised e (w\<lparr>heap := (heap w)(r := op1), hotel := hotel1\<rparr>)
      | Returned (op1, hotel1) \<Rightarrow>
          Returned (w\<lparr>heap := (heap w)(r := op1),
                      hotel := hotel1\<lparr>history := history hotel1 @ [r]\<rparr>\<rparr>))"

definition undo_last :: "World \<Rightarrow> World outcome" where
  "undo_last w =
     (if history (hotel w) = [] then Raised EmptyHistory w
      else
        let r = last (history (hotel w));
            hotel1 = (hotel w)\<lparr>history := butlast (history (hotel w))\<rparr>
        in Returned (w\<lparr>hotel := undo (heap w r) hotel1\<rparr>))"

text \<open>A session is a list of calls; a call that raises leaves its state behind and the
  session goes on from there.\<close>

datatype call = Apply ref | UndoLast

fun state_of :: "'a outcome \<Rightarrow> 'a" where
  "state_of (Returned s) = s"
| "state_of (Raised e s) = s"

fun do_call :: "call \<Rightarrow> World \<Rightarrow> World outcome" where
  "do_call (Apply r) w = hotel_apply r w"
| "do_call UndoLast w = undo_last w"

fun run :: "call list \<Rightarrow> World \<Rightarrow> World" where
  "run [] w = w"
| "run (c # cs) w = run cs (state_of (do_call c w))"


subsection \<open>Reachable states and invariants\<close>

text \<open>
  The states of a session: a freshly constructed hotel (with any operation objects in the
  store), and then any state left by a call of \<^verbatim>\<open>apply\<close> or \<^verbatim>\<open>undo_last\<close> that
  returned. The operation given to \<^verbatim>\<open>apply\<close> is any object of the store, also one that
  is in the history already.
\<close>

inductive reachable :: "World \<Rightarrow> bool" where
  init: "reachable \<lparr>heap = hp, hotel = Hotel_init\<rparr>"
| step_apply: "reachable w \<Longrightarrow> hotel_apply r w = Returned w1 \<Longrightarrow> reachable w1"
| step_undo: "reachable w \<Longrightarrow> undo_last w = Returned w1 \<Longrightarrow> reachable w1"

text \<open>A freshly constructed operation: nothing refers to it yet and its memento is empty.\<close>

definition fresh :: "ref \<Rightarrow> World \<Rightarrow> bool" where
  "fresh r w = (r \<notin> set (history (hotel w)) \<and> is_new (heap w r))"

text \<open>A booking blocks its room unless it is cancelled or checked out.\<close>

definition active :: "Booking \<Rightarrow> bool" where
  "active b = (status b \<notin> set [''cancelled'', ''checked_out''])"

definition no_overlap :: "Hotel \<Rightarrow> bool" where
  "no_overlap h =
     (\<forall>(i, b)\<in>set (bookings h). \<forall>(j, c)\<in>set (bookings h).
        i \<noteq> j \<and> room_number b = room_number c \<and> active b \<and> active c \<longrightarrow>
        \<not> dates_overlap (check_in_date b) (check_out_date b)
                         (check_in_date c) (check_out_date c))"

text \<open>
  Booking keys are pairwise distinct, and every guest and booking key is below its
  counter: the counter is the next unused id.
\<close>

definition wellformed :: "Hotel \<Rightarrow> bool" where
  "wellformed h =
     (distinct (map fst (bookings h))
      \<and> (\<forall>k\<in>fst ` set (guests h). k < next_guest_id h)
      \<and> (\<forall>k\<in>fst ` set (bookings h). k < next_booking_id h))"


subsection \<open>The demonstration session of the source\<close>

text \<open>
  The objects that the \<^verbatim>\<open>__main__\<close> block of the source constructs (references 0 to
  6), two further bookings of room 101 with the date ranges of the overlap examples, and
  a cancellation of booking 2.
\<close>

definition main_world :: World where
  "main_world = \<lparr>heap = (\<lambda>_. AddRoom_init 0 0 0)
      (0 := AddRoom_init 101 2 3500,
       1 := AddRoom_init 102 3 4500,
       2 := RegisterGuest_init ''G'',
       3 := CreateBooking_init 1 101 (Date 2026 1 25) (Date 2026 1 28),
       4 := CheckIn_init 1,
       5 := CheckOut_init 1,
       6 := CancelBooking_init 1,
       7 := CreateBooking_init 1 101 (Date 2026 1 27) (Date 2026 1 29),
       8 := CreateBooking_init 1 101 (Date 2026 1 28) (Date 2026 1 30),
       9 := CancelBooking_init 2),
     hotel = Hotel_init\<rparr>"

definition booked_world :: World where
  "booked_world = run [Apply 0, Apply 1, Apply 2, Apply 3] main_world"

definition checked_in_world :: World where
  "checked_in_world = run [Apply 4] booked_world"

definition checked_out_world :: World where
  "checked_out_world = run [Apply 5] checked_in_world"




subsection \<open>Several hotels\<close>

text \<open>
  A program may construct several \<^verbatim>\<open>Hotel\<close> objects, and nothing ties an operation
  instance to one of them: \<^verbatim>\<open>apply\<close> of any hotel accepts any instance and
  \<^verbatim>\<open>execute\<close> overwrites its memento. So the hotels share the object store. A hotel
  that no call has touched yet is a freshly constructed one.
\<close>

record Hotels =
  objects :: "ref \<Rightarrow> Operation"
  hotel_at :: "nat \<Rightarrow> Hotel"

definition view :: "nat \<Rightarrow> Hotels \<Rightarrow> World" where
  "view i s = \<lparr>heap = objects s, hotel = hotel_at s i\<rparr>"

definition store_back :: "nat \<Rightarrow> World \<Rightarrow> Hotels \<Rightarrow> Hotels" where
  "store_back i w s = \<lparr>objects = heap w, hotel_at = (hotel_at s)(i := hotel w)\<rparr>"

text \<open>\<^verbatim>\<open>apply\<close> and \<^verbatim>\<open>undo_last\<close> called on hotel \<open>i\<close>.\<close>

definition apply_on :: "nat \<Rightarrow> ref \<Rightarrow> Hotels \<Rightarrow> Hotels outcome" where
  "apply_on i r s =
     (case hotel_apply r (view i s) of
        Returned w \<Rightarrow> Returned (store_back i w s)
      | Raised e w \<Rightarrow> Raised e (store_back i w s))"

definition undo_last_on :: "nat \<Rightarrow> Hotels \<Rightarrow> Hotels outcome" where
  "undo_last_on i s =
     (case undo_last (view i s) of
        Returned w \<Rightarrow> Returned (store_back i w s)
      | Raised e w \<Rightarrow> Raised e (store_back i w s))"

datatype hcall = ApplyOn nat ref | UndoLastOn nat

fun do_hcall :: "hcall \<Rightarrow> Hotels \<Rightarrow> Hotels outcome" where
  "do_hcall (ApplyOn i r) s = apply_on i r s"
| "do_hcall (UndoLastOn i) s = undo_last_on i s"

fun run_hotels :: "hcall list \<Rightarrow> Hotels \<Rightarrow> Hotels" where
  "run_hotels [] s = s"
| "run_hotels (c # cs) s = run_hotels cs (state_of (do_hcall c s))"

text \<open>
  \<open>hcalls_return\<close>: no call of the session raises. \<open>in_no_history\<close>: the instance is
  in the history of no hotel. \<open>reachable_hotels\<close>: the states left by calls that
  returned, where \<^verbatim>\<open>apply\<close> is only given an instance that is in no history at that
  moment. \<open>fresh_hcalls\<close> checks that condition along a session, and
  \<open>own_fresh_hcalls\<close> the weaker one that the instance is not in the history of the
  hotel it is applied to.
\<close>

fun hcalls_return :: "hcall list \<Rightarrow> Hotels \<Rightarrow> bool" where
  "hcalls_return [] s = True"
| "hcalls_return (c # cs) s =
     (case do_hcall c s of Returned s1 \<Rightarrow> hcalls_return cs s1 | Raised e s1 \<Rightarrow> False)"

definition in_no_history :: "ref \<Rightarrow> Hotels \<Rightarrow> bool" where
  "in_no_history r s = (\<forall>j. r \<notin> set (history (hotel_at s j)))"


fun fresh_hcalls :: "hcall list \<Rightarrow> Hotels \<Rightarrow> bool" where
  "fresh_hcalls [] s = True"
| "fresh_hcalls (ApplyOn i r # cs) s =
     (in_no_history r s \<and> fresh_hcalls cs (state_of (apply_on i r s)))"
| "fresh_hcalls (UndoLastOn i # cs) s = fresh_hcalls cs (state_of (undo_last_on i s))"

fun own_fresh_hcalls :: "hcall list \<Rightarrow> Hotels \<Rightarrow> bool" where
  "own_fresh_hcalls [] s = True"
| "own_fresh_hcalls (ApplyOn i r # cs) s =
     (r \<notin> set (history (hotel_at s i)) \<and> own_fresh_hcalls cs (state_of (apply_on i r s)))"
| "own_fresh_hcalls (UndoLastOn i # cs) s = own_fresh_hcalls cs (state_of (undo_last_on i s))"

text \<open>
  Two hotels on the objects of the demonstration session and four more objects. In
  \<open>adjacent_calls\<close> every instance is applied once; in \<open>cross_calls\<close> the
  \<^verbatim>\<open>CreateBooking\<close> instance 7 is applied to hotel 1 while it is in the history of
  hotel 0.
\<close>

definition two_hotels :: Hotels where
  "two_hotels = \<lparr>objects = (heap main_world)
      (10 := AddRoom_init 101 1 900,
       11 := RegisterGuest_init ''H'',
       12 := CreateBooking_init 1 101 (Date 2026 2 1) (Date 2026 2 3),
       13 := CreateBooking_init 1 101 (Date 2026 2 5) (Date 2026 2 7)),
     hotel_at = (\<lambda>_. Hotel_init)\<rparr>"

definition adjacent_calls :: "hcall list" where
  "adjacent_calls = [ApplyOn 0 0, ApplyOn 0 2, ApplyOn 0 3, ApplyOn 0 8,
                     ApplyOn 1 10, ApplyOn 1 11, ApplyOn 1 12, ApplyOn 1 13,
                     ApplyOn 0 6, UndoLastOn 0]"

definition cross_calls :: "hcall list" where
  "cross_calls = [ApplyOn 0 0, ApplyOn 0 2, ApplyOn 0 3, ApplyOn 0 6, ApplyOn 0 7,
                  ApplyOn 1 10, ApplyOn 1 11, ApplyOn 1 12, ApplyOn 1 13, ApplyOn 1 7,
                  UndoLastOn 0, UndoLastOn 0]"

text \<open>
  The session of the monotonic-id example: two \<^verbatim>\<open>RegisterGuest\<close> objects on a fresh
  hotel.
\<close>

definition guests_world :: World where
  "guests_world = \<lparr>heap = (\<lambda>_. RegisterGuest_init ''A'')(1 := RegisterGuest_init ''B''),
                   hotel = Hotel_init\<rparr>"

section \<open>Basic facts\<close>

lemmas eval_defs =
  main_world_def booked_world_def checked_in_world_def checked_out_world_def hotel_apply_def undo_last_def
  Hotel_init_def AddRoom_init_def RegisterGuest_init_def CreateBooking_init_def
  CancelBooking_init_def CheckIn_init_def CheckOut_init_def dict_contains_def dict_values_def
  date_ge_def date_lt_def date_cmp_def room_is_available_def dates_overlap_def
  restore_status_def

lemma date_lt_irrefl: "\<not> date_lt a a"
  by (simp add: date_lt_def date_cmp_def)

lemma date_ge_iff: "date_ge a b \<longleftrightarrow> \<not> date_lt a b"
  by (simp add: date_ge_def date_lt_def not_less)


lemma room_is_available_loop_iff:
  "room_is_available_loop bs rn ci co \<longleftrightarrow>
     (\<forall>b\<in>set bs. room_number b = rn \<and> status b \<noteq> ''cancelled'' \<and> status b \<noteq> ''checked_out''
        \<longrightarrow> \<not> dates_overlap ci co (check_in_date b) (check_out_date b))"
  by (induction bs) auto

lemma update_absent: "k \<notin> set (map fst al) \<Longrightarrow> AList.update k v al = al @ [(k, v)]"
  by (induction al) auto

lemma delete_update_absent:
  "k \<notin> set (map fst al) \<Longrightarrow> AList.delete k (AList.update k v al) = al"
  by (simp add: delete_update_same)

lemma execute_raised:
  "execute op h = Raised e (op1, h1) \<Longrightarrow> op1 = op \<and> h1 = h"
  by (cases op) (auto simp: Let_def split: if_splits option.splits)

lemma execute_history:
  "execute op h = Returned (op1, h1) \<Longrightarrow> history h1 = history h"
  by (cases op) (auto simp: Let_def split: if_splits option.splits)

lemma restore_status_history: "history (restore_status b prev h) = history h"
  by (simp add: restore_status_def split: option.splits)

lemma undo_history: "history (undo op h) = history h"
  by (cases op) (auto simp: restore_status_history split: option.splits)

lemma hotel_apply_raised: "hotel_apply r w = Raised e w1 \<Longrightarrow> w1 = w"
  by (auto simp: hotel_apply_def split: outcome.splits prod.splits dest!: execute_raised)

lemma wellformed_init: "wellformed Hotel_init"
  by (simp add: wellformed_def Hotel_init_def)

lemma wellformed_history [simp]: "wellformed (h\<lparr>history := x\<rparr>) = wellformed h"
  by (simp add: wellformed_def)

lemma keys_update: "fst ` set (AList.update k v al) = insert k (fst ` set al)"
  using dom_update [of k v al] by simp

lemma keys_delete: "x \<in> fst ` set (AList.delete k al) \<Longrightarrow> x \<in> fst ` set al"
  using dom_delete_subset [of k al] by blast

lemma map_of_keys: "map_of al k = Some v \<Longrightarrow> k \<in> fst ` set al"
  by (metis map_of_eq_None_iff option.distinct(1))

lemma wellformed_set_status:
  assumes "wellformed h" and "map_of (bookings h) b = Some booking"
  shows "wellformed (h\<lparr>bookings := AList.update b v (bookings h)\<rparr>)"
proof -
  have "b \<in> fst ` set (bookings h)" using assms(2) by (rule map_of_keys)
  then have "insert b (fst ` set (bookings h)) = fst ` set (bookings h)" by blast
  then show ?thesis
    using assms(1) by (simp add: wellformed_def keys_update distinct_update)
qed

lemma execute_wellformed:
  assumes "wellformed h" and "execute op h = Returned (op1, h1)"
  shows "wellformed h1"
proof (cases op)
  case (AddRoom n c p a)
  with assms(2) have "h1 = h\<lparr>rooms := AList.update n
      \<lparr>number = n, capacity = c, price_per_night = p\<rparr> (rooms h)\<rparr>"
    by (simp split: if_splits)
  with assms(1) show ?thesis by (simp add: wellformed_def)
next
  case (RegisterGuest nm gid)
  with assms(2) have "h1 = h\<lparr>next_guest_id := next_guest_id h + 1,
      guests := AList.update (next_guest_id h)
         \<lparr>guest_id = next_guest_id h, name = nm\<rparr> (guests h)\<rparr>"
    by (simp add: Let_def)
  with assms(1) show ?thesis
    by (fastforce simp add: wellformed_def keys_update)
next
  case (CreateBooking g rn ci co bid)
  with assms(2) have "h1 = h\<lparr>next_booking_id := next_booking_id h + 1,
      bookings := AList.update (next_booking_id h)
         \<lparr>booking_id = next_booking_id h, booking_guest_id = g, room_number = rn,
          check_in_date = ci, check_out_date = co, status = ''booked''\<rparr> (bookings h)\<rparr>"
    by (simp add: Let_def split: if_splits)
  with assms(1) show ?thesis
    by (fastforce simp add: wellformed_def keys_update distinct_update)
next
  case (CancelBooking b prev)
  with assms show ?thesis
    by (auto simp: wellformed_set_status split: if_splits option.splits)
next
  case (CheckIn b prev)
  with assms show ?thesis
    by (auto simp: wellformed_set_status split: if_splits option.splits)
next
  case (CheckOut b prev)
  with assms show ?thesis
    by (auto simp: wellformed_set_status split: if_splits option.splits)
qed

lemma restore_status_wellformed: "wellformed h \<Longrightarrow> wellformed (restore_status b prev h)"
  by (simp add: restore_status_def wellformed_set_status split: option.splits)

lemma in_set_delete: "x \<in> set (AList.delete k al) \<Longrightarrow> x \<in> set al"
  by (simp add: AList.delete_eq)

lemma wellformed_delete_guest:
  "wellformed h \<Longrightarrow> wellformed (h\<lparr>guests := AList.delete g (guests h)\<rparr>)"
  by (auto simp: wellformed_def dest: in_set_delete)

lemma wellformed_delete_booking:
  "wellformed h \<Longrightarrow> wellformed (h\<lparr>bookings := AList.delete b (bookings h)\<rparr>)"
  by (auto simp: wellformed_def distinct_delete dest: in_set_delete)

lemma wellformed_rooms [simp]: "wellformed (h\<lparr>rooms := x\<rparr>) = wellformed h"
  by (simp add: wellformed_def)

lemma undo_wellformed: "wellformed h \<Longrightarrow> wellformed (undo op h)"
  by (cases op)
     (simp_all add: restore_status_wellformed wellformed_delete_guest
        wellformed_delete_booking split: option.splits)

lemma hotel_apply_returned:
  assumes "hotel_apply r w = Returned w1"
  obtains op1 h1 where "execute (heap w r) (hotel w) = Returned (op1, h1)"
    and "w1 = w\<lparr>heap := (heap w)(r := op1), hotel := h1\<lparr>history := history (hotel w) @ [r]\<rparr>\<rparr>"
proof (cases "execute (heap w r) (hotel w)")
  case (Returned x)
  obtain op1 h1 where x: "x = (op1, h1)" by (cases x)
  have "history h1 = history (hotel w)"
    using Returned x execute_history by blast
  with assms Returned x that show ?thesis
    by (simp add: hotel_apply_def)
next
  case (Raised e x)
  with assms show ?thesis
    by (simp add: hotel_apply_def split: prod.splits)
qed

lemma undo_last_returned:
  assumes "undo_last w = Returned w1"
  shows "history (hotel w) \<noteq> []"
    and "w1 = w\<lparr>hotel := undo (heap w (last (history (hotel w))))
                  ((hotel w)\<lparr>history := butlast (history (hotel w))\<rparr>)\<rparr>"
  using assms by (simp_all add: undo_last_def Let_def split: if_splits)

lemma hotel_apply_wellformed:
  assumes "wellformed (hotel w)" and "hotel_apply r w = Returned w1"
  shows "wellformed (hotel w1)"
proof -
  from assms(2) obtain op1 h1 where "execute (heap w r) (hotel w) = Returned (op1, h1)"
    and "w1 = w\<lparr>heap := (heap w)(r := op1), hotel := h1\<lparr>history := history (hotel w) @ [r]\<rparr>\<rparr>"
    by (rule hotel_apply_returned)
  with assms(1) execute_wellformed show ?thesis by simp
qed

lemma undo_last_wellformed:
  assumes "wellformed (hotel w)" and "undo_last w = Returned w1"
  shows "wellformed (hotel w1)"
  using assms(1) undo_last_returned(2) [OF assms(2)] by (simp add: undo_wellformed)

lemma reachable_wellformed: "reachable w \<Longrightarrow> wellformed (hotel w)"
proof (induction rule: reachable.induct)
  case (init hp)
  show ?case by (simp add: wellformed_init)
next
  case (step_apply w r w1)
  then show ?case using hotel_apply_wellformed by blast
next
  case (step_undo w w1)
  then show ?case using undo_last_wellformed by blast
qed

lemma restore_status_upd_history:
  "restore_status b prev (h\<lparr>history := x\<rparr>) = (restore_status b prev h)\<lparr>history := x\<rparr>"
  by (simp add: restore_status_def split: option.splits)

lemma undo_upd_history: "undo op (h\<lparr>history := x\<rparr>) = (undo op h)\<lparr>history := x\<rparr>"
  by (cases op) (simp_all add: restore_status_upd_history split: option.splits)

lemma restore_after_set_status:
  assumes "map_of (bookings h) b = Some booking" and "status booking = s0"
  shows "restore_status b (Some s0)
           (h\<lparr>bookings := AList.update b (booking\<lparr>status := s\<rparr>) (bookings h)\<rparr>) = h"
  using assms by (simp add: restore_status_def update_conv' update_triv)

lemma undo_execute:
  assumes "wellformed h" and "execute op h = Returned (op1, h1)"
  shows "rooms (undo op1 h1) = rooms h \<and> guests (undo op1 h1) = guests h
         \<and> bookings (undo op1 h1) = bookings h"
proof (cases op)
  case (AddRoom n c p a)
  with assms(2) have "\<not> dict_contains n (rooms h)" and "op1 = AddRoom n c p True"
    and "h1 = h\<lparr>rooms := AList.update n
      \<lparr>number = n, capacity = c, price_per_night = p\<rparr> (rooms h)\<rparr>"
    by (simp_all split: if_splits)
  then show ?thesis
    by (simp add: dict_contains_def keys_update delete_update_absent)
next
  case (RegisterGuest nm gid)
  with assms(2) have "op1 = RegisterGuest nm (Some (next_guest_id h))"
    and "h1 = h\<lparr>next_guest_id := next_guest_id h + 1,
      guests := AList.update (next_guest_id h)
         \<lparr>guest_id = next_guest_id h, name = nm\<rparr> (guests h)\<rparr>"
    by (simp_all add: Let_def)
  moreover have "next_guest_id h \<notin> fst ` set (guests h)"
    using assms(1) by (auto simp: wellformed_def)
  ultimately show ?thesis
    by (simp add: dict_contains_def keys_update delete_update_absent)
next
  case (CreateBooking g rn ci co bid)
  with assms(2) have "op1 = CreateBooking g rn ci co (Some (next_booking_id h))"
    and "h1 = h\<lparr>next_booking_id := next_booking_id h + 1,
      bookings := AList.update (next_booking_id h)
         \<lparr>booking_id = next_booking_id h, booking_guest_id = g, room_number = rn,
          check_in_date = ci, check_out_date = co, status = ''booked''\<rparr> (bookings h)\<rparr>"
    by (simp_all add: Let_def split: if_splits)
  moreover have "next_booking_id h \<notin> fst ` set (bookings h)"
    using assms(1) by (auto simp: wellformed_def)
  ultimately show ?thesis
    by (simp add: dict_contains_def keys_update delete_update_absent)
next
  case (CancelBooking b prev)
  with assms(2) show ?thesis
    by (auto simp: restore_after_set_status split: if_splits option.splits)
next
  case (CheckIn b prev)
  with assms(2) show ?thesis
    by (auto simp: restore_after_set_status split: if_splits option.splits)
next
  case (CheckOut b prev)
  with assms(2) show ?thesis
    by (auto simp: restore_after_set_status split: if_splits option.splits)
qed


lemma undo_last_raised: "undo_last w = Raised e w1 \<Longrightarrow> w1 = w"
  by (simp add: undo_last_def Let_def split: if_splits)

lemma reachable_do_call: "reachable w \<Longrightarrow> reachable (state_of (do_call c w))"
proof (cases c)
  case (Apply r)
  assume rw: "reachable w"
  show ?thesis
  proof (cases "hotel_apply r w")
    case (Returned w1)
    with rw Apply show ?thesis using reachable.step_apply by simp
  next
    case (Raised e w1)
    from hotel_apply_raised [OF Raised] have "w1 = w" .
    with rw Apply Raised show ?thesis by simp
  qed
next
  case UndoLast
  assume rw: "reachable w"
  show ?thesis
  proof (cases "undo_last w")
    case (Returned w1)
    with rw UndoLast show ?thesis using reachable.step_undo by simp
  next
    case (Raised e w1)
    from undo_last_raised [OF Raised] have "w1 = w" .
    with rw UndoLast Raised show ?thesis by simp
  qed
qed

lemma reachable_run: "reachable w \<Longrightarrow> reachable (run cs w)"
  by (induction cs arbitrary: w) (simp_all add: reachable_do_call)

lemma reachable_main_world: "reachable main_world"
  unfolding main_world_def by (rule reachable.init)

lemma booked_world_history: "history (hotel booked_world) = [0, 1, 2, 3]"
  by (simp add: eval_defs)

lemma booked_world_hotel:
  "hotel booked_world =
     \<lparr>rooms = [(101, \<lparr>number = 101, capacity = 2, price_per_night = 3500\<rparr>),
               (102, \<lparr>number = 102, capacity = 3, price_per_night = 4500\<rparr>)],
      guests = [(1, \<lparr>guest_id = 1, name = ''G''\<rparr>)],
      bookings = [(1, \<lparr>booking_id = 1, booking_guest_id = 1, room_number = 101,
                       check_in_date = Date 2026 1 25, check_out_date = Date 2026 1 28,
                       status = ''booked''\<rparr>)],
      next_guest_id = 2, next_booking_id = 2, history = [0, 1, 2, 3]\<rparr>"
  by (simp add: eval_defs)

lemma checked_out_world_hotel:
  "hotel checked_out_world =
     \<lparr>rooms = [(101, \<lparr>number = 101, capacity = 2, price_per_night = 3500\<rparr>),
               (102, \<lparr>number = 102, capacity = 3, price_per_night = 4500\<rparr>)],
      guests = [(1, \<lparr>guest_id = 1, name = ''G''\<rparr>)],
      bookings = [(1, \<lparr>booking_id = 1, booking_guest_id = 1, room_number = 101,
                       check_in_date = Date 2026 1 25, check_out_date = Date 2026 1 28,
                       status = ''checked_out''\<rparr>)],
      next_guest_id = 2, next_booking_id = 2, history = [0, 1, 2, 3, 4, 5]\<rparr>"
  by (simp add: eval_defs)

lemma booked_world_heap_7:
  "heap booked_world 7 = CreateBooking 1 101 (Date 2026 1 27) (Date 2026 1 29) None"
  by (simp add: eval_defs)

lemma checked_in_world_hotel:
  "hotel checked_in_world =
     \<lparr>rooms = [(101, \<lparr>number = 101, capacity = 2, price_per_night = 3500\<rparr>),
               (102, \<lparr>number = 102, capacity = 3, price_per_night = 4500\<rparr>)],
      guests = [(1, \<lparr>guest_id = 1, name = ''G''\<rparr>)],
      bookings = [(1, \<lparr>booking_id = 1, booking_guest_id = 1, room_number = 101,
                       check_in_date = Date 2026 1 25, check_out_date = Date 2026 1 28,
                       status = ''checked_in''\<rparr>)],
      next_guest_id = 2, next_booking_id = 2, history = [0, 1, 2, 3, 4]\<rparr>"
  by (simp add: eval_defs)

lemma checked_in_world_heap_5: "heap checked_in_world 5 = CheckOut 1 None"
  by (simp add: eval_defs)

section \<open>Exact invertibility\<close>

text \<open>
  C1 (exact invertibility): in any state of a session, when \<^verbatim>\<open>hotel.apply(op)\<close> returns
  for a freshly constructed operation, the following \<^verbatim>\<open>hotel.undo_last()\<close> returns and
  leaves the rooms, the guests, the bookings (with every status) and the history exactly
  as they were before the \<^verbatim>\<open>apply\<close>; the operations in the history are untouched.
\<close>

theorem apply_then_undo_last_restores:
  assumes "reachable w" and "fresh r w" and "hotel_apply r w = Returned w1"
  shows "\<exists>w2. undo_last w1 = Returned w2
           \<and> rooms (hotel w2) = rooms (hotel w)
           \<and> guests (hotel w2) = guests (hotel w)
           \<and> bookings (hotel w2) = bookings (hotel w)
           \<and> history (hotel w2) = history (hotel w)
           \<and> (\<forall>r'\<in>set (history (hotel w)). heap w2 r' = heap w r')"
proof -
  from assms(3) obtain op1 h1 where ex: "execute (heap w r) (hotel w) = Returned (op1, h1)"
    and w1: "w1 = w\<lparr>heap := (heap w)(r := op1),
                     hotel := h1\<lparr>history := history (hotel w) @ [r]\<rparr>\<rparr>"
    by (rule hotel_apply_returned)
  have wf: "wellformed (hotel w)"
    using assms(1) by (rule reachable_wellformed)
  have inv: "rooms (undo op1 h1) = rooms (hotel w) \<and> guests (undo op1 h1) = guests (hotel w)
         \<and> bookings (undo op1 h1) = bookings (hotel w)"
    using wf ex by (rule undo_execute)
  define w2 where "w2 = w1\<lparr>hotel := undo (heap w1 (last (history (hotel w1))))
                  ((hotel w1)\<lparr>history := butlast (history (hotel w1))\<rparr>)\<rparr>"
  have u: "undo_last w1 = Returned w2"
    by (simp add: undo_last_def w2_def w1 Let_def)
  have h2: "hotel w2 = (undo op1 h1)\<lparr>history := history (hotel w)\<rparr>"
    by (simp add: w2_def w1 undo_upd_history)
  have hp: "heap w2 = (heap w)(r := op1)"
    by (simp add: w2_def w1)
  have "r \<notin> set (history (hotel w))"
    using assms(2) by (simp add: fresh_def)
  then have "\<forall>r'\<in>set (history (hotel w)). heap w2 r' = heap w r'"
    unfolding hp by auto
  with u h2 inv show ?thesis by simp
qed

theorem apply_then_undo_last_restores_witness:
  "reachable checked_in_world \<and> fresh 5 checked_in_world
   \<and> (\<exists>w1 w2. hotel_apply 5 checked_in_world = Returned w1
         \<and> map (status \<circ> snd) (bookings (hotel w1)) = [''checked_out'']
         \<and> undo_last w1 = Returned w2
         \<and> map (status \<circ> snd) (bookings (hotel w2)) = [''checked_in'']
         \<and> history (hotel w2) = [0, 1, 2, 3, 4])"
proof -
  have r: "reachable checked_in_world"
    unfolding checked_in_world_def booked_world_def
    by (intro reachable_run reachable_main_world)
  have f: "fresh 5 checked_in_world"
    by (simp add: fresh_def checked_in_world_hotel checked_in_world_heap_5)
  have "\<exists>w1. hotel_apply 5 checked_in_world = Returned w1
          \<and> map (status \<circ> snd) (bookings (hotel w1)) = [''checked_out'']"
    by (simp add: hotel_apply_def checked_in_world_hotel checked_in_world_heap_5)
  then obtain w1 where a: "hotel_apply 5 checked_in_world = Returned w1"
    and s1: "map (status \<circ> snd) (bookings (hotel w1)) = [''checked_out'']"
    by (elim exE conjE)
  from apply_then_undo_last_restores [OF r f a]
  obtain w2 where u: "undo_last w1 = Returned w2"
    and b: "bookings (hotel w2) = bookings (hotel checked_in_world)"
    and h: "history (hotel w2) = history (hotel checked_in_world)"
    by (elim exE conjE)
  have "map (status \<circ> snd) (bookings (hotel w2)) = [''checked_in'']"
    unfolding b by (simp add: checked_in_world_hotel)
  moreover have "history (hotel w2) = [0, 1, 2, 3, 4]"
    unfolding h by (simp add: checked_in_world_hotel)
  ultimately show ?thesis
    using r f a s1 u by (intro conjI exI [of _ w1] exI [of _ w2])
qed

section \<open>Failed operations\<close>

text \<open>
  C2 (atomicity of a failed execute): when \<^verbatim>\<open>hotel.apply(op)\<close> raises, for any operation
  instance and any state, the state left behind is the state before the call: the
  rooms, guests and bookings, both id counters, the history and the operation instances
  themselves are unchanged, and the operation is not in the history unless it was
  there before.
\<close>

theorem failed_apply_atomic:
  "hotel_apply r w = Raised e w1 \<Longrightarrow>
     w1 = w \<and> hotel w1 = hotel w \<and> heap w1 = heap w
     \<and> history (hotel w1) = history (hotel w)"
  using hotel_apply_raised [of r w e w1] by simp

theorem failed_apply_atomic_witness:
  "\<exists>w1. hotel_apply 7 booked_world = Raised RoomUnavailable w1
     \<and> w1 = booked_world \<and> history (hotel w1) = [0, 1, 2, 3]"
proof -
  have "\<exists>w1. hotel_apply 7 booked_world = Raised RoomUnavailable w1"
    by (simp add: hotel_apply_def booked_world_hotel booked_world_heap_7 dict_contains_def
        date_ge_def date_lt_def date_cmp_def room_is_available_def dict_values_def
        dates_overlap_def)
  then obtain w1 where a: "hotel_apply 7 booked_world = Raised RoomUnavailable w1"
    by blast
  have "w1 = booked_world"
    using failed_apply_atomic [OF a] by simp
  then show ?thesis
    using a booked_world_history by simp
qed

section \<open>The conflict check\<close>

text \<open>
  C3 (conflict-check semantics): a room is reported available for a proposed range exactly
  when no existing booking of that room whose status is neither \<open>cancelled\<close> nor
  \<open>checked_out\<close> overlaps the range; two half-open ranges overlap exactly when each
  starts before the other ends; a range that only shares a boundary date with another
  does not overlap it (the two examples of the specification included); a cancelled
  booking is not among the bookings that can block.
\<close>

theorem room_is_available_iff:
  "(room_is_available rn ci co h \<longleftrightarrow>
      \<not> (\<exists>b\<in>set (dict_values (bookings h)).
            room_number b = rn \<and> status b \<noteq> ''cancelled'' \<and> status b \<noteq> ''checked_out''
            \<and> dates_overlap ci co (check_in_date b) (check_out_date b)))
   \<and> (dates_overlap a_start a_end b_start b_end \<longleftrightarrow>
        date_lt a_start b_end \<and> date_lt b_start a_end)
   \<and> \<not> dates_overlap a_start m m b_end
   \<and> \<not> dates_overlap m a_end b_start m
   \<and> \<not> dates_overlap (Date 2026 1 25) (Date 2026 1 28) (Date 2026 1 28) (Date 2026 1 30)
   \<and> dates_overlap (Date 2026 1 27) (Date 2026 1 29) (Date 2026 1 25) (Date 2026 1 28)"
proof -
  have avail: "room_is_available rn ci co h \<longleftrightarrow>
      \<not> (\<exists>b\<in>set (dict_values (bookings h)).
            room_number b = rn \<and> status b \<noteq> ''cancelled'' \<and> status b \<noteq> ''checked_out''
            \<and> dates_overlap ci co (check_in_date b) (check_out_date b))"
    unfolding room_is_available_def room_is_available_loop_iff by blast
  have ex1: "\<not> dates_overlap (Date 2026 1 25) (Date 2026 1 28) (Date 2026 1 28) (Date 2026 1 30)"
    by (simp add: dates_overlap_def date_lt_def date_cmp_def)
  have ex2: "dates_overlap (Date 2026 1 27) (Date 2026 1 29) (Date 2026 1 25) (Date 2026 1 28)"
    by (simp add: dates_overlap_def date_lt_def date_cmp_def)
  show ?thesis
    using avail ex1 ex2 by (simp add: dates_overlap_def date_lt_irrefl)
qed

theorem room_is_available_iff_witness:
  "\<not> room_is_available 101 (Date 2026 1 27) (Date 2026 1 29) (hotel booked_world)
   \<and> room_is_available 101 (Date 2026 1 28) (Date 2026 1 30) (hotel booked_world)
   \<and> room_is_available 101 (Date 2026 1 27) (Date 2026 1 29) (hotel checked_out_world)"
  using room_is_available_iff [of 101 "Date 2026 1 27" "Date 2026 1 29" "hotel booked_world"]
    room_is_available_iff [of 101 "Date 2026 1 28" "Date 2026 1 30" "hotel booked_world"]
    room_is_available_iff [of 101 "Date 2026 1 27" "Date 2026 1 29" "hotel checked_out_world"]
  by (simp add: booked_world_hotel checked_out_world_hotel dict_values_def dates_overlap_def
      date_lt_def date_cmp_def)

section \<open>The no-overlap invariant\<close>


lemma restore_status_bookings_cong:
  "bookings h = bookings h' \<Longrightarrow>
     bookings (restore_status b prev h) = bookings (restore_status b prev h')"
  by (simp add: restore_status_def split: option.splits)












lemmas hotels_defs = view_def store_back_def apply_on_def undo_last_on_def two_hotels_def
  in_no_history_def adjacent_calls_def cross_calls_def












lemma adjacent_return: "hcalls_return adjacent_calls two_hotels"
  by (simp add: hotels_defs eval_defs)

lemma cross_hotel_0:
  "hotel_at (run_hotels cross_calls two_hotels) 0 =
     \<lparr>rooms = [(101, \<lparr>number = 101, capacity = 2, price_per_night = 3500\<rparr>)],
      guests = [(1, \<lparr>guest_id = 1, name = ''G''\<rparr>)],
      bookings = [(1, \<lparr>booking_id = 1, booking_guest_id = 1, room_number = 101,
                       check_in_date = Date 2026 1 25, check_out_date = Date 2026 1 28,
                       status = ''booked''\<rparr>),
                  (2, \<lparr>booking_id = 2, booking_guest_id = 1, room_number = 101,
                       check_in_date = Date 2026 1 27, check_out_date = Date 2026 1 29,
                       status = ''booked''\<rparr>)],
      next_guest_id = 2, next_booking_id = 3, history = [0, 2, 3]\<rparr>"
  by (simp add: hotels_defs eval_defs)



text \<open>
  The side condition of the amended statement below has to speak of every hotel: in the
  session \<open>cross_calls\<close> every call returns and no \<^verbatim>\<open>apply\<close> gets an instance
  that is in the history of the hotel it is applied to, but instance 7 is applied to hotel
  1 while it is in the history of hotel 0. Its memento then names booking 3, the two
  \<^verbatim>\<open>undo_last\<close> calls on hotel 0 leave booking 2 and restore booking 1, and hotel 0
  ends with two overlapping \<open>booked\<close> bookings of room 101.
\<close>

lemma cross_hotel_reuse_overlaps:
  "hcalls_return cross_calls two_hotels \<and> own_fresh_hcalls cross_calls two_hotels
   \<and> \<not> fresh_hcalls cross_calls two_hotels
   \<and> \<not> no_overlap (hotel_at (run_hotels cross_calls two_hotels) 0)"
proof -
  have a: "hcalls_return cross_calls two_hotels"
    by (simp add: hotels_defs eval_defs)
  have b: "own_fresh_hcalls cross_calls two_hotels"
    by (simp add: hotels_defs eval_defs)
  have c: "\<not> fresh_hcalls cross_calls two_hotels"
    by (simp add: hotels_defs eval_defs)
  have d: "\<not> no_overlap (hotel_at (run_hotels cross_calls two_hotels) 0)"
    by (simp add: cross_hotel_0 no_overlap_def active_def dates_overlap_def
        date_lt_def date_cmp_def)
  from a b c d show ?thesis by simp
qed



section \<open>The status machine\<close>

text \<open>
  C5 (status state-machine enforcement): for a booking that is present, \<^verbatim>\<open>CheckIn.execute\<close>
  raises \<open>InvalidTransition\<close> whenever the status is not \<open>booked\<close>,
  \<^verbatim>\<open>CheckOut.execute\<close> raises \<open>InvalidTransition\<close> whenever the status is not
  \<open>checked_in\<close>, \<^verbatim>\<open>CancelBooking.execute\<close> raises \<open>AlreadyCancelled\<close> on status
  \<open>cancelled\<close> and \<open>AlreadyCheckedOut\<close> on status \<open>checked_out\<close>; in each case the
  aggregate (so the status of the booking) and the instance are left as they were.
\<close>

theorem status_machine_enforced:
  assumes "map_of (bookings h) b = Some booking"
  shows "(status booking \<noteq> ''booked'' \<longrightarrow>
            execute (CheckIn b prev) h = Raised InvalidTransition (CheckIn b prev, h))
       \<and> (status booking \<noteq> ''checked_in'' \<longrightarrow>
            execute (CheckOut b prev) h = Raised InvalidTransition (CheckOut b prev, h))
       \<and> (status booking = ''cancelled'' \<longrightarrow>
            execute (CancelBooking b prev) h
              = Raised AlreadyCancelled (CancelBooking b prev, h))
       \<and> (status booking = ''checked_out'' \<longrightarrow>
            execute (CancelBooking b prev) h
              = Raised AlreadyCheckedOut (CancelBooking b prev, h))"
  using assms by simp

theorem status_machine_enforced_witness:
  "(\<exists>booking. map_of (bookings (hotel checked_out_world)) 1 = Some booking
      \<and> status booking = ''checked_out'')
   \<and> execute (CheckIn 1 None) (hotel checked_out_world)
       = Raised InvalidTransition (CheckIn 1 None, hotel checked_out_world)
   \<and> execute (CancelBooking 1 None) (hotel checked_out_world)
       = Raised AlreadyCheckedOut (CancelBooking 1 None, hotel checked_out_world)
   \<and> (\<exists>booking. map_of (bookings (hotel booked_world)) 1 = Some booking
      \<and> status booking = ''booked'')
   \<and> execute (CheckOut 1 None) (hotel booked_world)
       = Raised InvalidTransition (CheckOut 1 None, hotel booked_world)"
proof -
  obtain b1 where b1: "map_of (bookings (hotel checked_out_world)) 1 = Some b1"
    and s1: "status b1 = ''checked_out''"
    by (simp add: checked_out_world_hotel)
  obtain b2 where b2: "map_of (bookings (hotel booked_world)) 1 = Some b2"
    and s2: "status b2 = ''booked''"
    by (simp add: booked_world_hotel)
  show ?thesis
    using status_machine_enforced [OF b1, of None] status_machine_enforced [OF b2, of None]
      b1 s1 b2 s2
    by simp
qed

section \<open>Identifier counters\<close>

lemma execute_counters:
  assumes "execute op h = Returned (op1, h1)"
  shows "next_guest_id h \<le> next_guest_id h1 \<and> next_booking_id h \<le> next_booking_id h1"
  using assms by (cases op) (auto simp: Let_def split: if_splits option.splits)

lemma restore_status_counters:
  "next_guest_id (restore_status b prev h) = next_guest_id h
   \<and> next_booking_id (restore_status b prev h) = next_booking_id h"
  by (simp add: restore_status_def split: option.splits)

lemma undo_counters:
  "next_guest_id (undo op h) = next_guest_id h \<and> next_booking_id (undo op h) = next_booking_id h"
  by (cases op) (simp_all add: restore_status_counters split: option.splits)

lemma do_call_counters:
  "next_guest_id (hotel w) \<le> next_guest_id (hotel (state_of (do_call c w)))
   \<and> next_booking_id (hotel w) \<le> next_booking_id (hotel (state_of (do_call c w)))"
proof (cases c)
  case (Apply r)
  show ?thesis
  proof (cases "hotel_apply r w")
    case (Returned w1)
    then obtain op1 h1 where ex: "execute (heap w r) (hotel w) = Returned (op1, h1)"
      and w1: "w1 = w\<lparr>heap := (heap w)(r := op1),
                       hotel := h1\<lparr>history := history (hotel w) @ [r]\<rparr>\<rparr>"
      by (rule hotel_apply_returned)
    from execute_counters [OF ex] Apply Returned show ?thesis by (simp add: w1)
  next
    case (Raised e w1)
    from hotel_apply_raised [OF Raised] have "w1 = w" .
    with Apply Raised show ?thesis by simp
  qed
next
  case UndoLast
  show ?thesis
  proof (cases "undo_last w")
    case (Returned w1)
    note w1 = undo_last_returned(2) [OF Returned]
    have "next_guest_id (hotel w1) = next_guest_id (hotel w)
       \<and> next_booking_id (hotel w1) = next_booking_id (hotel w)"
      unfolding w1 by (simp add: undo_counters)
    with UndoLast Returned show ?thesis by simp
  next
    case (Raised e w1)
    from undo_last_raised [OF Raised] have "w1 = w" .
    with UndoLast Raised show ?thesis by simp
  qed
qed

lemma run_counters:
  "next_guest_id (hotel w) \<le> next_guest_id (hotel (run cs w))
   \<and> next_booking_id (hotel w) \<le> next_booking_id (hotel (run cs w))"
proof (induction cs arbitrary: w)
  case Nil
  show ?case by simp
next
  case (Cons c cs)
  from do_call_counters [of w c] Cons.IH [of "state_of (do_call c w)"]
  show ?case by simp
qed

lemma apply_assigns_guest_id:
  assumes "hotel_apply r w = Returned w1" and "heap w1 r = RegisterGuest nm (Some g)"
  shows "g = next_guest_id (hotel w) \<and> next_guest_id (hotel w1) = g + 1"
proof -
  from assms(1) obtain op1 h1 where ex: "execute (heap w r) (hotel w) = Returned (op1, h1)"
    and w1: "w1 = w\<lparr>heap := (heap w)(r := op1),
                     hotel := h1\<lparr>history := history (hotel w) @ [r]\<rparr>\<rparr>"
    by (rule hotel_apply_returned)
  from assms(2) have op1: "op1 = RegisterGuest nm (Some g)" by (simp add: w1)
  from ex op1 have "g = next_guest_id (hotel w) \<and> next_guest_id h1 = g + 1"
    by (cases "heap w r") (auto simp: Let_def split: if_splits option.splits)
  then show ?thesis by (simp add: w1)
qed

lemma apply_assigns_booking_id:
  assumes "hotel_apply r w = Returned w1" and "heap w1 r = CreateBooking g rn ci co (Some b)"
  shows "b = next_booking_id (hotel w) \<and> next_booking_id (hotel w1) = b + 1"
proof -
  from assms(1) obtain op1 h1 where ex: "execute (heap w r) (hotel w) = Returned (op1, h1)"
    and w1: "w1 = w\<lparr>heap := (heap w)(r := op1),
                     hotel := h1\<lparr>history := history (hotel w) @ [r]\<rparr>\<rparr>"
    by (rule hotel_apply_returned)
  from assms(2) have op1: "op1 = CreateBooking g rn ci co (Some b)" by (simp add: w1)
  from ex op1 have "b = next_booking_id (hotel w) \<and> next_booking_id h1 = b + 1"
    by (cases "heap w r") (auto simp: Let_def split: if_splits option.splits)
  then show ?thesis by (simp add: w1)
qed

text \<open>
  C6 (monotonic identifiers survive undo): over any sequence of \<^verbatim>\<open>apply\<close> and
  \<^verbatim>\<open>undo_last\<close> calls, returning or raising, neither counter decreases; a guest id
  (booking id) assigned by a successful \<^verbatim>\<open>apply\<close> is strictly smaller than every
  guest id (booking id) assigned by a later one, so no id is assigned twice; on a fresh
  hotel, registering a guest assigns id 1, and after undoing it the next registration
  assigns id 2.
\<close>

theorem counters_monotonic:
  "next_guest_id (hotel w) \<le> next_guest_id (hotel (run cs w))
   \<and> next_booking_id (hotel w) \<le> next_booking_id (hotel (run cs w))
   \<and> (hotel_apply r w = Returned w1 \<longrightarrow> heap w1 r = RegisterGuest nm (Some g) \<longrightarrow>
        hotel_apply r' (run cs w1) = Returned w2 \<longrightarrow>
        heap w2 r' = RegisterGuest nm' (Some g') \<longrightarrow> g < g')
   \<and> (hotel_apply r w = Returned w1 \<longrightarrow> heap w1 r = CreateBooking gu rn ci co (Some b) \<longrightarrow>
        hotel_apply r' (run cs w1) = Returned w2 \<longrightarrow>
        heap w2 r' = CreateBooking gu' rn' ci' co' (Some b') \<longrightarrow> b < b')
   \<and> heap (run [Apply 0] guests_world) 0 = RegisterGuest ''A'' (Some 1)
   \<and> guests (hotel (run [Apply 0, UndoLast] guests_world)) = []
   \<and> heap (run [Apply 0, UndoLast, Apply 1] guests_world) 1 = RegisterGuest ''B'' (Some 2)
   \<and> guests (hotel (run [Apply 0, UndoLast, Apply 1] guests_world))
       = [(2, \<lparr>guest_id = 2, name = ''B''\<rparr>)]"
proof -
  have g: "g < g'" if "hotel_apply r w = Returned w1" "heap w1 r = RegisterGuest nm (Some g)"
    "hotel_apply r' (run cs w1) = Returned w2" "heap w2 r' = RegisterGuest nm' (Some g')"
    using apply_assigns_guest_id [OF that(1,2)] apply_assigns_guest_id [OF that(3,4)]
      run_counters [of w1 cs] by simp
  have b: "b < b'" if "hotel_apply r w = Returned w1"
    "heap w1 r = CreateBooking gu rn ci co (Some b)"
    "hotel_apply r' (run cs w1) = Returned w2"
    "heap w2 r' = CreateBooking gu' rn' ci' co' (Some b')"
    using apply_assigns_booking_id [OF that(1,2)] apply_assigns_booking_id [OF that(3,4)]
      run_counters [of w1 cs] by simp
  have e1: "heap (run [Apply 0] guests_world) 0 = RegisterGuest ''A'' (Some 1)"
    by (simp add: guests_world_def eval_defs)
  have e2: "guests (hotel (run [Apply 0, UndoLast] guests_world)) = []"
    by (simp add: guests_world_def eval_defs)
  have e3: "heap (run [Apply 0, UndoLast, Apply 1] guests_world) 1 = RegisterGuest ''B'' (Some 2)"
    by (simp add: guests_world_def eval_defs)
  have e4: "guests (hotel (run [Apply 0, UndoLast, Apply 1] guests_world))
       = [(2, \<lparr>guest_id = 2, name = ''B''\<rparr>)]"
    by (simp add: guests_world_def eval_defs)
  show ?thesis
    using run_counters [of w cs] g b e1 e2 e3 e4 by (intro conjI impI) simp_all
qed


theorem counters_monotonic_witness:
  "(\<exists>w1 w2. hotel_apply 0 guests_world = Returned w1
       \<and> heap w1 0 = RegisterGuest ''A'' (Some 1)
       \<and> hotel_apply 1 (run [UndoLast] w1) = Returned w2
       \<and> heap w2 1 = RegisterGuest ''B'' (Some 2))
   \<and> (\<exists>w1 w2. hotel_apply 3 (run [Apply 0, Apply 1, Apply 2] main_world) = Returned w1
       \<and> heap w1 3 = CreateBooking 1 101 (Date 2026 1 25) (Date 2026 1 28) (Some 1)
       \<and> hotel_apply 8 (run [] w1) = Returned w2
       \<and> heap w2 8 = CreateBooking 1 101 (Date 2026 1 28) (Date 2026 1 30) (Some 2))
   \<and> next_guest_id (hotel main_world) \<le> next_guest_id (hotel booked_world)
   \<and> next_guest_id (hotel booked_world) = 2"
proof -
  let ?g1 = "run [Apply 0] guests_world"
  let ?g2 = "run [Apply 0, UndoLast, Apply 1] guests_world"
  have "\<exists>x. hotel_apply 0 guests_world = Returned x"
    by (simp add: guests_world_def eval_defs)
  then have a1: "hotel_apply 0 guests_world = Returned ?g1"
    by auto
  have h1: "heap ?g1 0 = RegisterGuest ''A'' (Some 1)"
    by (simp add: guests_world_def eval_defs)
  have "\<exists>x. hotel_apply 1 (run [UndoLast] ?g1) = Returned x"
    by (simp add: guests_world_def eval_defs)
  then have a2: "hotel_apply 1 (run [UndoLast] ?g1) = Returned ?g2"
    by auto
  have h2: "heap ?g2 1 = RegisterGuest ''B'' (Some 2)"
    by (simp add: guests_world_def eval_defs)
  let ?b0 = "run [Apply 0, Apply 1, Apply 2] main_world"
  let ?b1 = "run [Apply 0, Apply 1, Apply 2, Apply 3] main_world"
  let ?b2 = "run [Apply 0, Apply 1, Apply 2, Apply 3, Apply 8] main_world"
  have "\<exists>x. hotel_apply 3 ?b0 = Returned x"
    by (simp add: eval_defs)
  then have c1: "hotel_apply 3 ?b0 = Returned ?b1"
    by auto
  have k1: "heap ?b1 3 = CreateBooking 1 101 (Date 2026 1 25) (Date 2026 1 28) (Some 1)"
    by (simp add: eval_defs)
  have "\<exists>x. hotel_apply 8 (run [] ?b1) = Returned x"
    by (simp add: eval_defs)
  then have c2: "hotel_apply 8 (run [] ?b1) = Returned ?b2"
    by auto
  have k2: "heap ?b2 8 = CreateBooking 1 101 (Date 2026 1 28) (Date 2026 1 30) (Some 2)"
    by (simp add: eval_defs)
  have m: "next_guest_id (hotel main_world) \<le> next_guest_id (hotel booked_world)"
    unfolding booked_world_def
    by (rule counters_monotonic [THEN conjunct1])
  have lt1: "(1::int) < 2"
    by (rule counters_monotonic [THEN conjunct2, THEN conjunct2, THEN conjunct1,
          rule_format, OF a1 h1 a2 h2])
  have lt2: "(1::int) < 2"
    by (rule counters_monotonic [THEN conjunct2, THEN conjunct2, THEN conjunct2,
          THEN conjunct1, rule_format, OF c1 k1 c2 k2])
  have n: "next_guest_id (hotel booked_world) = 2"
    by (simp add: booked_world_hotel)
  have p1: "\<exists>w1 w2. hotel_apply 0 guests_world = Returned w1
       \<and> heap w1 0 = RegisterGuest ''A'' (Some 1)
       \<and> hotel_apply 1 (run [UndoLast] w1) = Returned w2
       \<and> heap w2 1 = RegisterGuest ''B'' (Some 2)"
    by (rule exI [of _ ?g1], rule exI [of _ ?g2]) (intro conjI a1 h1 a2 h2)
  have p2: "\<exists>w1 w2. hotel_apply 3 (run [Apply 0, Apply 1, Apply 2] main_world) = Returned w1
       \<and> heap w1 3 = CreateBooking 1 101 (Date 2026 1 25) (Date 2026 1 28) (Some 1)
       \<and> hotel_apply 8 (run [] w1) = Returned w2
       \<and> heap w2 8 = CreateBooking 1 101 (Date 2026 1 28) (Date 2026 1 30) (Some 2)"
    by (rule exI [of _ ?b1], rule exI [of _ ?b2]) (intro conjI c1 k1 c2 k2)
  show ?thesis
    by (intro conjI p1 p2 m n)
qed

section \<open>Applying one instance twice\<close>

lemma delete_append: "AList.delete k (xs @ ys) = AList.delete k xs @ AList.delete k ys"
  by (simp add: AList.delete_eq)

text \<open>
  C9 (memento aliasing on instance reuse): when one \<^verbatim>\<open>RegisterGuest\<close> instance is
  applied twice in a row, both calls return and insert two guests with consecutive ids; the
  instance then records the second id only; the first of two following \<^verbatim>\<open>undo_last\<close>
  calls removes the second guest, the second call changes no guest, and the first guest
  stays in the aggregate although the history is back to what it was.
\<close>

theorem register_guest_reuse:
  assumes "reachable w" and "heap w r = RegisterGuest nm gid"
  shows "\<exists>w1 w2 w3 w4.
           hotel_apply r w = Returned w1 \<and> hotel_apply r w1 = Returned w2
         \<and> undo_last w2 = Returned w3 \<and> undo_last w3 = Returned w4
         \<and> guests (hotel w2) = guests (hotel w) @
              [(next_guest_id (hotel w),
                  \<lparr>guest_id = next_guest_id (hotel w), name = nm\<rparr>),
               (next_guest_id (hotel w) + 1,
                  \<lparr>guest_id = next_guest_id (hotel w) + 1, name = nm\<rparr>)]
         \<and> heap w2 r = RegisterGuest nm (Some (next_guest_id (hotel w) + 1))
         \<and> history (hotel w2) = history (hotel w) @ [r, r]
         \<and> guests (hotel w3) = guests (hotel w) @
              [(next_guest_id (hotel w),
                  \<lparr>guest_id = next_guest_id (hotel w), name = nm\<rparr>)]
         \<and> guests (hotel w4) = guests (hotel w3)
         \<and> history (hotel w4) = history (hotel w)"
proof -
  define n where "n = next_guest_id (hotel w)"
  define gs where "gs = guests (hotel w)"
  define hs where "hs = history (hotel w)"
  have wf: "wellformed (hotel w)"
    using assms(1) by (rule reachable_wellformed)
  then have below: "\<forall>k\<in>fst ` set gs. k < n"
    by (simp add: wellformed_def gs_def n_def)
  then have n0: "n \<notin> set (map fst gs)" and n1: "n + 1 \<notin> set (map fst gs)"
    by auto
  define w1 where "w1 = w\<lparr>heap := (heap w)(r := RegisterGuest nm (Some n)),
      hotel := (hotel w)\<lparr>next_guest_id := n + 1,
                 guests := gs @ [(n, \<lparr>guest_id = n, name = nm\<rparr>)],
                 history := hs @ [r]\<rparr>\<rparr>"
  define w2 where "w2 = w1\<lparr>heap := (heap w1)(r := RegisterGuest nm (Some (n + 1))),
      hotel := (hotel w1)\<lparr>next_guest_id := n + 2,
                 guests := gs @ [(n, \<lparr>guest_id = n, name = nm\<rparr>),
                                 (n + 1, \<lparr>guest_id = n + 1, name = nm\<rparr>)],
                 history := hs @ [r, r]\<rparr>\<rparr>"
  define w3 where "w3 = w2\<lparr>hotel := (hotel w2)\<lparr>
                 guests := gs @ [(n, \<lparr>guest_id = n, name = nm\<rparr>)],
                 history := hs @ [r]\<rparr>\<rparr>"
  define w4 where "w4 = w3\<lparr>hotel := (hotel w3)\<lparr>history := hs\<rparr>\<rparr>"
  have a1: "hotel_apply r w = Returned w1"
    using n0 by (simp add: hotel_apply_def assms(2) Let_def w1_def update_absent
        n_def [symmetric] gs_def [symmetric] hs_def [symmetric])
  have u1: "AList.update (n + 1) v (gs @ [(n, x)]) = gs @ [(n, x), (n + 1, v)]" for v x
    using n1 by (simp add: update_absent)
  have a2: "hotel_apply r w1 = Returned w2"
    by (simp add: hotel_apply_def Let_def w1_def w2_def u1)
  have d1: "AList.delete (n + 1) (gs @ [(n, x), (n + 1, v)]) = gs @ [(n, x)]" for v x
    using n1 by (simp add: delete_append)
  have a3: "undo_last w2 = Returned w3"
    by (simp add: undo_last_def Let_def w1_def w2_def w3_def dict_contains_def d1 butlast_append)
  have nin: "\<not> dict_contains (n + 1) (gs @ [(n, x)])" for x
    using n1 by (simp add: dict_contains_def)
  have a4: "undo_last w3 = Returned w4"
    by (simp add: undo_last_def Let_def w1_def w2_def w3_def w4_def nin butlast_append)
  have "guests (hotel w2) = gs @ [(n, \<lparr>guest_id = n, name = nm\<rparr>),
                                 (n + 1, \<lparr>guest_id = n + 1, name = nm\<rparr>)]"
    and "heap w2 r = RegisterGuest nm (Some (n + 1))"
    and "history (hotel w2) = hs @ [r, r]"
    and "guests (hotel w3) = gs @ [(n, \<lparr>guest_id = n, name = nm\<rparr>)]"
    and "guests (hotel w4) = guests (hotel w3)"
    and "history (hotel w4) = hs"
    by (simp_all add: w1_def w2_def w3_def w4_def)
  with a1 a2 a3 a4 show ?thesis
    unfolding n_def gs_def hs_def by blast
qed

theorem register_guest_reuse_witness:
  "reachable guests_world \<and> heap guests_world 0 = RegisterGuest ''A'' None
   \<and> guests (hotel (run [Apply 0, Apply 0] guests_world))
       = [(1, \<lparr>guest_id = 1, name = ''A''\<rparr>), (2, \<lparr>guest_id = 2, name = ''A''\<rparr>)]
   \<and> guests (hotel (run [Apply 0, Apply 0, UndoLast, UndoLast] guests_world))
       = [(1, \<lparr>guest_id = 1, name = ''A''\<rparr>)]
   \<and> history (hotel (run [Apply 0, Apply 0, UndoLast, UndoLast] guests_world)) = []"
proof -
  have r: "reachable guests_world"
    unfolding guests_world_def by (rule reachable.init)
  have h: "heap guests_world 0 = RegisterGuest ''A'' None"
    by (simp add: guests_world_def RegisterGuest_init_def)
  from register_guest_reuse [OF r h]
  obtain w1 w2 w3 w4 where a: "hotel_apply 0 guests_world = Returned w1"
    "hotel_apply 0 w1 = Returned w2" "undo_last w2 = Returned w3" "undo_last w3 = Returned w4"
    and g2: "guests (hotel w2) = guests (hotel guests_world) @
              [(next_guest_id (hotel guests_world),
                  \<lparr>guest_id = next_guest_id (hotel guests_world), name = ''A''\<rparr>),
               (next_guest_id (hotel guests_world) + 1,
                  \<lparr>guest_id = next_guest_id (hotel guests_world) + 1, name = ''A''\<rparr>)]"
    and g3: "guests (hotel w3) = guests (hotel guests_world) @
              [(next_guest_id (hotel guests_world),
                  \<lparr>guest_id = next_guest_id (hotel guests_world), name = ''A''\<rparr>)]"
    and g4: "guests (hotel w4) = guests (hotel w3)"
    and h4: "history (hotel w4) = history (hotel guests_world)"
    by (elim exE conjE)
  have r2: "run [Apply 0, Apply 0] guests_world = w2"
    using a by simp
  have r4: "run [Apply 0, Apply 0, UndoLast, UndoLast] guests_world = w4"
    using a by simp
  show ?thesis
    unfolding r2 r4 g4 g3 g2 h4 using r h by (simp add: guests_world_def Hotel_init_def)
qed

section \<open>CreateBooking\<close>

text \<open>
  C7 (validation order and effect of \<^verbatim>\<open>CreateBooking.execute\<close>): the checks run in the
  order guest exists (else \<open>UnknownGuest\<close>), room exists (else \<open>UnknownRoom\<close>),
  check-in strictly before check-out (else \<open>InvalidDateRange\<close>), no overlapping active
  booking of the room (else \<open>RoomUnavailable\<close>); on success the booking gets the next
  booking id, the counter is incremented, a booking with status \<open>booked\<close> is inserted
  under that id, and the id is recorded on the instance.
\<close>

theorem create_booking_execute:
  "execute (CreateBooking g rn ci co bid) h =
     (if g \<notin> fst ` set (guests h)
        then Raised UnknownGuest (CreateBooking g rn ci co bid, h)
      else if rn \<notin> fst ` set (rooms h)
        then Raised UnknownRoom (CreateBooking g rn ci co bid, h)
      else if \<not> date_lt ci co
        then Raised InvalidDateRange (CreateBooking g rn ci co bid, h)
      else if (\<exists>b\<in>set (dict_values (bookings h)).
                 room_number b = rn \<and> status b \<noteq> ''cancelled'' \<and> status b \<noteq> ''checked_out''
                 \<and> dates_overlap ci co (check_in_date b) (check_out_date b))
        then Raised RoomUnavailable (CreateBooking g rn ci co bid, h)
      else Returned
        (CreateBooking g rn ci co (Some (next_booking_id h)),
         h\<lparr>next_booking_id := next_booking_id h + 1,
           bookings := AList.update (next_booking_id h)
             \<lparr>booking_id = next_booking_id h, booking_guest_id = g, room_number = rn,
              check_in_date = ci, check_out_date = co, status = ''booked''\<rparr>
             (bookings h)\<rparr>))"
  by (auto simp: dict_contains_def date_ge_iff room_is_available_def room_is_available_loop_iff
      Let_def)

theorem create_booking_execute_witness:
  "execute (CreateBooking 1 101 (Date 2026 1 28) (Date 2026 1 30) None) (hotel booked_world)
     = Returned (CreateBooking 1 101 (Date 2026 1 28) (Date 2026 1 30) (Some 2),
         (hotel booked_world)\<lparr>next_booking_id := 3,
           bookings := bookings (hotel booked_world) @
             [(2, \<lparr>booking_id = 2, booking_guest_id = 1, room_number = 101,
                   check_in_date = Date 2026 1 28, check_out_date = Date 2026 1 30,
                   status = ''booked''\<rparr>)]\<rparr>)
   \<and> execute (CreateBooking 5 101 (Date 2026 1 30) (Date 2026 1 28) None) (hotel booked_world)
     = Raised UnknownGuest
         (CreateBooking 5 101 (Date 2026 1 30) (Date 2026 1 28) None, hotel booked_world)
   \<and> execute (CreateBooking 1 103 (Date 2026 1 30) (Date 2026 1 28) None) (hotel booked_world)
     = Raised UnknownRoom
         (CreateBooking 1 103 (Date 2026 1 30) (Date 2026 1 28) None, hotel booked_world)
   \<and> execute (CreateBooking 1 101 (Date 2026 1 26) (Date 2026 1 26) None) (hotel booked_world)
     = Raised InvalidDateRange
         (CreateBooking 1 101 (Date 2026 1 26) (Date 2026 1 26) None, hotel booked_world)
   \<and> execute (CreateBooking 1 101 (Date 2026 1 27) (Date 2026 1 29) None) (hotel booked_world)
     = Raised RoomUnavailable
         (CreateBooking 1 101 (Date 2026 1 27) (Date 2026 1 29) None, hotel booked_world)"
  using create_booking_execute [of 1 101 "Date 2026 1 28" "Date 2026 1 30" None "hotel booked_world"]
    create_booking_execute [of 5 101 "Date 2026 1 30" "Date 2026 1 28" None "hotel booked_world"]
    create_booking_execute [of 1 103 "Date 2026 1 30" "Date 2026 1 28" None "hotel booked_world"]
    create_booking_execute [of 1 101 "Date 2026 1 26" "Date 2026 1 26" None "hotel booked_world"]
    create_booking_execute [of 1 101 "Date 2026 1 27" "Date 2026 1 29" None "hotel booked_world"]
  by (simp add: booked_world_hotel dict_values_def dates_overlap_def date_lt_def date_cmp_def)

section \<open>undo_last\<close>

text \<open>
  C8 (behaviour of \<^verbatim>\<open>undo_last\<close>): on an empty history, in particular on a freshly
  constructed hotel, it raises \<open>EmptyHistory\<close> and leaves the state unchanged; otherwise
  it returns, the history has lost exactly its last entry, and the aggregate is the result
  of that operation's \<^verbatim>\<open>undo\<close> on the aggregate with the entry popped.
\<close>

theorem undo_last_behaviour:
  "(history (hotel w) = [] \<longrightarrow> undo_last w = Raised EmptyHistory w)
   \<and> undo_last \<lparr>heap = hp, hotel = Hotel_init\<rparr>
       = Raised EmptyHistory \<lparr>heap = hp, hotel = Hotel_init\<rparr>
   \<and> (history (hotel w) \<noteq> [] \<longrightarrow>
        (\<exists>w1. undo_last w = Returned w1
           \<and> history (hotel w1) = butlast (history (hotel w))
           \<and> heap w1 = heap w
           \<and> hotel w1 = undo (heap w (last (history (hotel w))))
                          ((hotel w)\<lparr>history := butlast (history (hotel w))\<rparr>)))"
  by (simp add: undo_last_def Hotel_init_def undo_history Let_def)

theorem undo_last_behaviour_witness:
  "history (hotel main_world) = []
   \<and> undo_last main_world = Raised EmptyHistory main_world
   \<and> history (hotel checked_out_world) \<noteq> []
   \<and> (\<exists>w1. undo_last checked_out_world = Returned w1
         \<and> history (hotel w1) = [0, 1, 2, 3, 4]
         \<and> map (status \<circ> snd) (bookings (hotel w1)) = [''checked_in''])"
proof -
  have e: "history (hotel main_world) = []"
    by (simp add: main_world_def Hotel_init_def)
  have n: "history (hotel checked_out_world) \<noteq> []"
    by (simp add: checked_out_world_hotel)
  have l: "heap checked_out_world (last (history (hotel checked_out_world))) = CheckOut 1 (Some ''checked_in'')"
    by (simp add: eval_defs)
  from undo_last_behaviour [of checked_out_world] n
  obtain w1 where u: "undo_last checked_out_world = Returned w1"
    and hist: "history (hotel w1) = butlast (history (hotel checked_out_world))"
    and hot: "hotel w1 = undo (heap checked_out_world (last (history (hotel checked_out_world))))
                ((hotel checked_out_world)\<lparr>history := butlast (history (hotel checked_out_world))\<rparr>)"
    by blast
  have "map (status \<circ> snd) (bookings (hotel w1)) = [''checked_in'']"
    unfolding hot l by (simp add: checked_out_world_hotel restore_status_def)
  moreover have "history (hotel w1) = [0, 1, 2, 3, 4]"
    unfolding hist by (simp add: checked_out_world_hotel)
  ultimately show ?thesis
    using e n u undo_last_behaviour [of main_world] by simp
qed

section \<open>AddRoom\<close>

text \<open>
  C10 (no attribute validation in \<^verbatim>\<open>AddRoom\<close>): for all integers \<open>c\<close> (capacity) and
  \<open>p\<close> (price per night), zero and negative ones included, \<^verbatim>\<open>AddRoom.execute\<close>
  raises only when the room number is already present, and otherwise inserts the room with
  exactly the given values and sets the flag of the instance.
\<close>

theorem add_room_no_attribute_validation:
  "(dict_contains n (rooms h) \<longrightarrow>
      execute (AddRoom n c p added) h = Raised DuplicateRoom (AddRoom n c p added, h))
   \<and> (\<not> dict_contains n (rooms h) \<longrightarrow>
      execute (AddRoom n c p added) h =
        Returned (AddRoom n c p True,
          h\<lparr>rooms := rooms h @ [(n, \<lparr>number = n, capacity = c, price_per_night = p\<rparr>)]\<rparr>))"
  by (simp add: dict_contains_def update_absent Let_def)

theorem add_room_no_attribute_validation_witness:
  "\<not> dict_contains 7 (rooms Hotel_init)
   \<and> execute (AddRoom 7 0 (- 5) False) Hotel_init
       = Returned (AddRoom 7 0 (- 5) True,
           Hotel_init\<lparr>rooms := [(7, \<lparr>number = 7, capacity = 0, price_per_night = - 5\<rparr>)]\<rparr>)
   \<and> dict_contains 101 (rooms (hotel booked_world))
   \<and> execute (AddRoom 101 (- 1) 0 False) (hotel booked_world)
       = Raised DuplicateRoom (AddRoom 101 (- 1) 0 False, hotel booked_world)"
  using add_room_no_attribute_validation [of 7 Hotel_init 0 "- 5" False]
    add_room_no_attribute_validation [of 101 "hotel booked_world" "- 1" 0 False]
  by (simp add: dict_contains_def Hotel_init_def booked_world_hotel)

end
